theory Spec2Isabelle
  imports Main
begin

section \<open>Python strings\<close>

text \<open>
  A Python \<open>str\<close> is a sequence of Unicode code points. It is modelled as a list of
  natural numbers, so that \<open>length\<close>, slicing and the whitespace tests count what
  Python counts. \<open>str\<close> turns an ASCII literal of the source into that representation.
\<close>

type_synonym codepoint = nat
type_synonym pystr = "codepoint list"

definition str :: "string \<Rightarrow> pystr" where
  "str s = map of_char s"

text \<open>
  \<open>str.isspace\<close> on one code point, the test that \<open>str.strip()\<close> and
  \<open>str.split()\<close> without arguments use: the code points 0x09-0x0D, 0x1C-0x20, 0x85,
  0xA0, 0x1680, 0x2000-0x200A, 0x2028, 0x2029, 0x202F, 0x205F and 0x3000.
\<close>

definition py_isspace :: "codepoint \<Rightarrow> bool" where
  "py_isspace c \<longleftrightarrow>
     (9 \<le> c \<and> c \<le> 13) \<or> (28 \<le> c \<and> c \<le> 32) \<or> c = 133 \<or> c = 160 \<or> c = 5760 \<or>
     (8192 \<le> c \<and> c \<le> 8202) \<or> c = 8232 \<or> c = 8233 \<or> c = 8239 \<or> c = 8287 \<or>
     c = 12288"

text \<open>\<open>s.startswith(p)\<close>.\<close>

definition py_startswith :: "pystr \<Rightarrow> pystr \<Rightarrow> bool" where
  "py_startswith s p \<longleftrightarrow> take (length p) s = p"

text \<open>\<open>s.endswith(p)\<close>.\<close>

definition py_endswith :: "pystr \<Rightarrow> pystr \<Rightarrow> bool" where
  "py_endswith s p \<longleftrightarrow> length p \<le> length s \<and> drop (length s - length p) s = p"

text \<open>\<open>s.strip()\<close>: whitespace removed at both ends.\<close>

definition py_strip :: "pystr \<Rightarrow> pystr" where
  "py_strip s = rev (dropWhile py_isspace (rev (dropWhile py_isspace s)))"

text \<open>
  \<open>s.split()\<close> without arguments: skip a run of whitespace, take the characters up to
  the next whitespace as a word, and go on after it; no empty word is produced.
\<close>

function py_split :: "pystr \<Rightarrow> pystr list" where
  "py_split s =
     (case dropWhile py_isspace s of
        [] \<Rightarrow> []
      | c # r \<Rightarrow>
          (c # takeWhile (\<lambda>x. \<not> py_isspace x) r) #
            py_split (dropWhile (\<lambda>x. \<not> py_isspace x) r))"
  by pat_completeness auto
termination
proof (relation "measure length")
  show "wf (measure length)" by simp
next
  fix s :: pystr and c r
  assume a: "dropWhile py_isspace s = c # r"
  have "length (dropWhile (\<lambda>x. \<not> py_isspace x) r) \<le> length r"
    by (rule length_dropWhile_le)
  moreover have "length (c # r) \<le> length s"
    using length_dropWhile_le [of py_isspace s] a by simp
  ultimately show "(dropWhile (\<lambda>x. \<not> py_isspace x) r, s) \<in> measure length"
    by simp
qed

declare py_split.simps [simp del]

text \<open>\<open>sep.join(ws)\<close>.\<close>

fun py_join :: "pystr \<Rightarrow> pystr list \<Rightarrow> pystr" where
  "py_join sep [] = []"
| "py_join sep [w] = w"
| "py_join sep (w # v # ws) = w @ sep @ py_join sep (v # ws)"

section \<open>The prompt loader\<close>

text \<open>
  \<open>load_system_prompt\<close> of \<open>cli.py\<close>. The template file is read by the external
  \<open>prompty\<close> loader; its \<open>content\<close> attribute is the argument here.
\<close>

definition load_system_prompt :: "pystr \<Rightarrow> pystr" where
  "load_system_prompt content =
     (if py_startswith content (str ''system:'') then py_strip (drop 7 content)
      else content)"

text \<open>
  The first step of \<open>run_agent\<close>: \<open>" ".join(custom_instructions.split())\<close>.
\<close>

definition single_line :: "pystr \<Rightarrow> pystr" where
  "single_line custom_instructions = py_join (str '' '') (py_split custom_instructions)"


section \<open>Floats and their rendering\<close>

text \<open>
  A Python \<open>float\<close> is an IEEE double: a finite value \<open>m * 2 ^ e\<close>, an infinity (the
  flag says negative) or a NaN. The sign of a zero is not kept; a zero is never
  rendered by the program, since it counts as false.
\<close>

datatype pyfloat = Finite int int | Infinite bool | NaN

text \<open>\<open>bool(x)\<close> of a float: everything except zero is true.\<close>

fun float_bool :: "pyfloat \<Rightarrow> bool" where
  "float_bool (Finite m e) = (m \<noteq> 0)"
| "float_bool (Infinite neg) = True"
| "float_bool NaN = True"

text \<open>The decimal digits of a natural number, as \<open>str(n)\<close> gives them.\<close>

function digits :: "nat \<Rightarrow> pystr" where
  "digits n = (if n < 10 then [48 + n] else digits (n div 10) @ [48 + n mod 10])"
  by pat_completeness auto
termination
  by (relation "measure id") auto

declare digits.simps [simp del]

text \<open>
  The number of ten-thousandths nearest to \<open>a * 2 ^ e\<close> for \<open>a \<ge> 0\<close>, a tie going to
  the even neighbour: the rounding of the format specification \<open>.4f\<close>, which works on
  the exact binary value.
\<close>

definition round_4 :: "nat \<Rightarrow> int \<Rightarrow> nat" where
  "round_4 a e =
     (if 0 \<le> e then a * 10000 * 2 ^ nat e
      else
        let d = 2 ^ nat (- e); q = (a * 10000) div d; r = (a * 10000) mod d
        in if 2 * r < d then q
           else if d < 2 * r then q + 1
           else if even q then q else q + 1)"

text \<open>\<open>format(x, ".4f")\<close>.\<close>

fun format_4f :: "pyfloat \<Rightarrow> pystr" where
  "format_4f (Finite m e) =
     (let n = round_4 (nat \<bar>m\<bar>) e; f = n mod 10000
      in (if m < 0 then str ''-'' else []) @ digits (n div 10000) @ str ''.'' @
         [48 + f div 1000, 48 + f div 100 mod 10, 48 + f div 10 mod 10, 48 + f mod 10])"
| "format_4f (Infinite neg) = (if neg then str ''-inf'' else str ''inf'')"
| "format_4f NaN = str ''nan''"

section \<open>The messages of the agent client\<close>

text \<open>
  The response stream of the external client yields messages. An assistant message
  carries a list of content blocks, a result message the optional total cost; the
  fields the program never reads are left out.
\<close>

datatype block =
    TextBlock pystr
  | ThinkingBlock pystr
  | ToolUseBlock pystr
  | ToolResultBlock pystr

datatype message =
    AssistantMessage "block list"
  | ResultMessage "pyfloat option"
  | UserMessage
  | SystemMessage
  | StreamEvent

text \<open>
  The options object handed to the client. \<open>mcp_servers\<close> holds the keys of the
  dictionary (the server object comes from another module),
  \<open>system_prompt\<close> the dictionary in the order it is written.
\<close>

record agent_options =
  mcp_servers :: "pystr list"
  allowed_tools :: "pystr list"
  cwd :: pystr
  permission_mode :: pystr
  system_prompt :: "(pystr \<times> pystr) list"

section \<open>What the program does, as a trace\<close>

text \<open>
  The observable actions in the order they happen. \<open>Echo Stdout t\<close> is
  \<open>click.echo(t)\<close>, \<open>Echo Stderr t\<close> is \<open>click.echo(t, err=True)\<close>; the other events
  are the return of \<open>setup_logging\<close> and the calls on the client.
\<close>

datatype stream = Stdout | Stderr

datatype event =
    LoggingConfigured pystr
  | ClientOpened agent_options
  | QuerySubmitted pystr
  | Echo stream pystr
  | ClientClosed

section \<open>The response loop and the agent runner\<close>

text \<open>The inner loop body: a text block is echoed, any other block is skipped.\<close>

fun print_block :: "block \<Rightarrow> event list" where
  "print_block (TextBlock text) = [Echo Stdout text]"
| "print_block b = []"

fun print_blocks :: "block list \<Rightarrow> event list" where
  "print_blocks [] = []"
| "print_blocks (b # bs) = print_block b @ print_blocks bs"

text \<open>The f-string \<open>f"\n[Cost: ${message.total_cost_usd:.4f}]"\<close>.\<close>

definition cost_line :: "pyfloat \<Rightarrow> pystr" where
  "cost_line c = str ''\<newline>[Cost: $'' @ format_4f c @ str '']''"

text \<open>
  The outer loop body. \<open>if message.total_cost_usd:\<close> is false for \<open>None\<close> and for a zero.
\<close>

fun handle_message :: "message \<Rightarrow> event list" where
  "handle_message (AssistantMessage content) = print_blocks content"
| "handle_message (ResultMessage total_cost_usd) =
     (case total_cost_usd of
        None \<Rightarrow> []
      | Some c \<Rightarrow> if float_bool c then [Echo Stderr (cost_line c)] else [])"
| "handle_message m = []"

fun response_loop :: "message list \<Rightarrow> event list" where
  "response_loop [] = []"
| "response_loop (m # ms) = handle_message m @ response_loop ms"

text \<open>
  The \<open>ClaudeAgentOptions(...)\<close> expression of \<open>run_agent\<close>; \<open>template\<close> is the content
  of the prompt template.
\<close>

definition build_options :: "pystr \<Rightarrow> pystr \<Rightarrow> agent_options" where
  "build_options template dir =
     \<lparr> mcp_servers = [str ''techdebt''],
       allowed_tools =
         [str ''mcp__techdebt__extract_style_diagnostics'',
          str ''mcp__techdebt__extract_analyzers_diagnostics''],
       cwd = dir,
       permission_mode = str ''acceptEdits'',
       system_prompt =
         [(str ''type'', str ''preset''),
          (str ''preset'', str ''claude_code''),
          (str ''append'', single_line (load_system_prompt template))] \<rparr>"

text \<open>
  \<open>run_agent\<close>: the client is opened with the options, the query is sent, the
  response stream \<open>msgs\<close> is consumed, and the client is closed on leaving the
  \<open>async with\<close> block. The stream is what the external client delivers; its calls
  are assumed not to raise.
\<close>

definition run_agent :: "pystr \<Rightarrow> pystr \<Rightarrow> pystr \<Rightarrow> message list \<Rightarrow> event list" where
  "run_agent template query dir msgs =
     [ClientOpened (build_options template dir), QuerySubmitted query] @
     response_loop msgs @ [ClientClosed]"

section \<open>Logging setup\<close>

text \<open>
  The process state that \<open>setup_logging\<close> and \<open>main\<close> read and change: the
  environment variables, the temp directory that \<open>tempfile.gettempdir()\<close> reports, the
  handlers and the level of the root logger, and a counter that gives every newly
  created handler object its identity. Opening the log file is assumed to succeed.
\<close>

datatype target = RotatingFile pystr nat nat | StderrStream

record handler =
  hid :: nat
  target :: target
  formatter :: "pystr option"
  level :: int

record world =
  environ :: "pystr \<Rightarrow> pystr option"
  tempdir :: pystr
  root_handlers :: "handler list"
  root_level :: int
  next_oid :: nat

datatype pyerror = ValueError | TypeError

text \<open>The value of a module attribute, as far as \<open>setLevel\<close> tells values apart.\<close>

datatype pyobj = PyInt int | PyStr pystr | PyDict

text \<open>
  \<open>str.upper\<close> on ASCII letters. The case mapping of the other code points is not
  modelled: \<open>setup_logging\<close> takes the function as its parameter \<open>upper\<close>, and this
  one stands for it on ASCII input.
\<close>

definition ascii_upper :: "pystr \<Rightarrow> pystr" where
  "ascii_upper s = map (\<lambda>c. if 97 \<le> c \<and> c \<le> 122 then c - 32 else c) s"

text \<open>
  \<open>getattr(logging, name, None)\<close> for a name without lower-case letters, which is what
  \<open>upper\<close> returns: the level constants, the default format string and the table of
  format styles are the attributes of the \<open>logging\<close> module with such a name.
\<close>

definition logging_getattr :: "pystr \<Rightarrow> pyobj option" where
  "logging_getattr name =
     (if name = str ''CRITICAL'' then Some (PyInt 50)
      else if name = str ''FATAL'' then Some (PyInt 50)
      else if name = str ''ERROR'' then Some (PyInt 40)
      else if name = str ''WARNING'' then Some (PyInt 30)
      else if name = str ''WARN'' then Some (PyInt 30)
      else if name = str ''INFO'' then Some (PyInt 20)
      else if name = str ''DEBUG'' then Some (PyInt 10)
      else if name = str ''NOTSET'' then Some (PyInt 0)
      else if name = str ''BASIC_FORMAT'' then Some (PyStr (str ''%(levelname)s:%(name)s:%(message)s''))
      else if name = str ''_STYLES'' then Some PyDict
      else None)"

text \<open>The dictionary \<open>logging._nameToLevel\<close>.\<close>

definition name_to_level :: "pystr \<Rightarrow> int option" where
  "name_to_level name =
     (if name = str ''CRITICAL'' then Some 50
      else if name = str ''FATAL'' then Some 50
      else if name = str ''ERROR'' then Some 40
      else if name = str ''WARN'' then Some 30
      else if name = str ''WARNING'' then Some 30
      else if name = str ''INFO'' then Some 20
      else if name = str ''DEBUG'' then Some 10
      else if name = str ''NOTSET'' then Some 0
      else None)"

text \<open>
  \<open>logging._checkLevel\<close>, which \<open>Handler.setLevel\<close> applies to its argument: an integer
  is taken as it is, a string must be a level name, anything else is refused.
\<close>

fun check_level :: "pyobj \<Rightarrow> pyerror + int" where
  "check_level (PyInt n) = Inr n"
| "check_level (PyStr s) = (case name_to_level s of None \<Rightarrow> Inl ValueError | Some n \<Rightarrow> Inr n)"
| "check_level PyDict = Inl TypeError"

text \<open>\<open>os.path.join(a, b)\<close> of \<open>posixpath\<close> for two components.\<close>

definition path_join :: "pystr \<Rightarrow> pystr \<Rightarrow> pystr" where
  "path_join a b =
     (if py_startswith b (str ''/'') then b
      else if a = [] \<or> py_endswith a (str ''/'') then a @ b
      else a @ str ''/'' @ b)"

text \<open>\<open>Logger.addHandler\<close>: a handler object already in the list is not added again.\<close>

definition addHandler :: "handler \<Rightarrow> world \<Rightarrow> world" where
  "addHandler hdlr w =
     (if hid hdlr \<in> set (map hid (root_handlers w)) then w
      else w\<lparr>root_handlers := root_handlers w @ [hdlr]\<rparr>)"

text \<open>
  \<open>setup_logging\<close> of \<open>logging_config.py\<close>. The result is the error raised by
  \<open>console_handler.setLevel\<close>, or the path of the log file with the new state.
\<close>

definition setup_logging :: "(pystr \<Rightarrow> pystr) \<Rightarrow> world \<Rightarrow> pyerror + (pystr \<times> world)" where
  "setup_logging upper w =
     (let log_level = (case environ w (str ''TDA_LOG_LEVEL'') of
                         None \<Rightarrow> str ''INFO'' | Some v \<Rightarrow> v);
          log_dir = tempdir w;
          log_file = path_join log_dir (str ''tda.log'');
          w1 = w\<lparr>root_handlers := []\<rparr>;
          file_handler = \<lparr> hid = next_oid w1,
                           target = RotatingFile log_file (5 * 1024 * 1024) 3,
                           formatter = None, level = 0 \<rparr>;
          console_handler = \<lparr> hid = next_oid w1 + 1, target = StderrStream,
                              formatter = None, level = 0 \<rparr>;
          w2 = w1\<lparr>next_oid := next_oid w1 + 2\<rparr>;
          file_handler = file_handler
            \<lparr>formatter := Some (str ''%(asctime)s - %(name)s - %(levelname)s - %(message)s'')\<rparr>;
          console_handler = console_handler
            \<lparr>formatter := Some (str ''%(levelname)s - %(name)s - %(message)s'')\<rparr>;
          file_handler = file_handler\<lparr>level := 10\<rparr>
      in case check_level (case logging_getattr (upper log_level) of
                             None \<Rightarrow> PyInt 20 | Some v \<Rightarrow> v) of
           Inl e \<Rightarrow> Inl e
         | Inr console_level \<Rightarrow>
             let console_handler = console_handler\<lparr>level := console_level\<rparr>;
                 w3 = w2\<lparr>root_level := 10\<rparr>;
                 w4 = addHandler file_handler w3;
                 w5 = addHandler console_handler w4
             in Inr (log_file, w5))"

text \<open>Calling \<open>setup_logging\<close> again and again: \<open>n + 1\<close> calls, each on the state the
  one before left.\<close>

fun setup_logging_again :: "(pystr \<Rightarrow> pystr) \<Rightarrow> nat \<Rightarrow> world \<Rightarrow> pyerror + (pystr \<times> world)" where
  "setup_logging_again upper 0 w = setup_logging upper w"
| "setup_logging_again upper (Suc n) w =
     (case setup_logging upper w of
        Inl e \<Rightarrow> Inl e
      | Inr (log_file, w') \<Rightarrow> setup_logging_again upper n w')"

section \<open>The entry point\<close>

text \<open>
  The body of \<open>main\<close>, entered once the command line is accepted. It returns the trace
  and either the error that ended the process or the final state. \<open>template\<close> is the
  content of the prompt template and \<open>msgs\<close> the response stream of the client.
\<close>

definition main ::
  "(pystr \<Rightarrow> pystr) \<Rightarrow> pystr \<Rightarrow> message list \<Rightarrow> pystr \<Rightarrow> pystr \<Rightarrow> world \<Rightarrow>
     event list \<times> (pyerror + world)" where
  "main upper template msgs query dir w =
     (case setup_logging upper w of
        Inl e \<Rightarrow> ([], Inl e)
      | Inr (log_file, w1) \<Rightarrow>
          let w2 = w1\<lparr>environ := (environ w1)(str ''TDA_LOG_FILE'' \<mapsto> log_file)\<rparr>
          in (LoggingConfigured log_file # run_agent template query dir msgs @
                [Echo Stderr (str ''Logs: '' @ log_file)],
              Inr w2))"

section \<open>Notions used to state the properties\<close>

text \<open>The texts echoed to one stream, in the order of the trace.\<close>

fun echoed :: "stream \<Rightarrow> event list \<Rightarrow> pystr list" where
  "echoed st [] = []"
| "echoed st (Echo st' t # es) = (if st' = st then t # echoed st es else echoed st es)"
| "echoed st (e # es) = echoed st es"

text \<open>The texts of the text blocks of a list of blocks, and of the assistant messages
  of a stream, in their order.\<close>

fun block_texts :: "block list \<Rightarrow> pystr list" where
  "block_texts [] = []"
| "block_texts (TextBlock t # bs) = t # block_texts bs"
| "block_texts (b # bs) = block_texts bs"

fun text_segments :: "message list \<Rightarrow> pystr list" where
  "text_segments [] = []"
| "text_segments (AssistantMessage bs # ms) = block_texts bs @ text_segments ms"
| "text_segments (m # ms) = text_segments ms"

text \<open>The cost lines a stream gives rise to.\<close>

fun cost_lines :: "message list \<Rightarrow> pystr list" where
  "cost_lines [] = []"
| "cost_lines (ResultMessage (Some c) # ms) =
     (if float_bool c then cost_line c # cost_lines ms else cost_lines ms)"
| "cost_lines (m # ms) = cost_lines ms"

text \<open>The queries submitted in a trace.\<close>

fun queries :: "event list \<Rightarrow> pystr list" where
  "queries [] = []"
| "queries (QuerySubmitted q # es) = q # queries es"
| "queries (e # es) = queries es"

text \<open>A list of words as \<open>split\<close> produces them: none empty, none with whitespace.\<close>

definition words_ok :: "pystr list \<Rightarrow> bool" where
  "words_ok ws \<longleftrightarrow> (\<forall>w\<in>set ws. w \<noteq> [] \<and> (\<forall>c\<in>set w. \<not> py_isspace c))"

text \<open>No two whitespace characters next to each other.\<close>

fun no_adjacent_space :: "pystr \<Rightarrow> bool" where
  "no_adjacent_space [] = True"
| "no_adjacent_space [c] = True"
| "no_adjacent_space (a # b # r) =
     (\<not> (py_isspace a \<and> py_isspace b) \<and> no_adjacent_space (b # r))"

text \<open>A decimal digit, and the number a string of decimal digits denotes.\<close>

definition is_digit :: "codepoint \<Rightarrow> bool" where
  "is_digit c \<longleftrightarrow> 48 \<le> c \<and> c \<le> 57"

definition decimal_value :: "pystr \<Rightarrow> nat" where
  "decimal_value s = foldl (\<lambda>acc c. 10 * acc + (c - 48)) 0 s"

text \<open>
  \<open>n\<close> ten-thousandths is a nearest such number to \<open>a * 2 ^ e\<close>: the two differ by at
  most half a ten-thousandth. Written without fractions.
\<close>

definition nearest_4 :: "nat \<Rightarrow> int \<Rightarrow> nat \<Rightarrow> bool" where
  "nearest_4 a e n \<longleftrightarrow>
     (if 0 \<le> e then n = a * 10000 * 2 ^ nat e
      else 2 * (a * 10000) \<le> (2 * n + 1) * 2 ^ nat (- e) \<and>
           2 * n * 2 ^ nat (- e) \<le> 2 * (a * 10000) + 2 ^ nat (- e))"

section \<open>Facts about the string operations\<close>

lemma rev_split_trailing:
  "xs = rev (dropWhile P (rev xs)) @ rev (takeWhile P (rev xs))"
  by (metis rev_append rev_rev_ident takeWhile_dropWhile_id)

lemma strip_decomp:
  "\<exists>lead trail. s = lead @ py_strip s @ trail \<and>
     (\<forall>c\<in>set lead. py_isspace c) \<and> (\<forall>c\<in>set trail. py_isspace c)"
proof -
  let ?l = "takeWhile py_isspace s"
  let ?m = "dropWhile py_isspace s"
  let ?t = "rev (takeWhile py_isspace (rev ?m))"
  have 1: "s = ?l @ ?m" by simp
  have 3: "?m = py_strip s @ ?t"
    unfolding py_strip_def by (rule rev_split_trailing)
  have 4: "\<forall>c\<in>set ?l. py_isspace c" by (auto dest: set_takeWhileD)
  have 5: "\<forall>c\<in>set ?t. py_isspace c" by (auto dest: set_takeWhileD)
  from 1 3 have "s = ?l @ py_strip s @ ?t" by simp
  with 4 5 show ?thesis by blast
qed

lemma strip_ends:
  assumes a: "py_strip s \<noteq> []"
  shows "\<not> py_isspace (hd (py_strip s)) \<and> \<not> py_isspace (last (py_strip s))"
proof -
  let ?m = "dropWhile py_isspace s"
  let ?d = "dropWhile py_isspace (rev ?m)"
  have d: "?d \<noteq> []" using a by (simp add: py_strip_def)
  then have "\<not> py_isspace (hd ?d)" by (rule hd_dropWhile)
  then have l: "\<not> py_isspace (last (py_strip s))"
    using d by (simp add: py_strip_def last_rev)
  have m: "?m \<noteq> []"
  proof
    assume e: "?m = []"
    have "?d = []" unfolding e by simp
    with d show False by simp
  qed
  then have hm: "\<not> py_isspace (hd ?m)" by (rule hd_dropWhile)
  have "?m = py_strip s @ rev (takeWhile py_isspace (rev ?m))"
    unfolding py_strip_def by (rule rev_split_trailing)
  then have "hd ?m = hd (py_strip s)" using a by (metis hd_append2)
  with hm have "\<not> py_isspace (hd (py_strip s))" by simp
  with l show ?thesis by simp
qed

lemma startswith_iff: "py_startswith s p \<longleftrightarrow> (\<exists>rest. s = p @ rest)"
  unfolding py_startswith_def by (metis append_eq_conv_conj append_take_drop_id)

lemma marker_length: "length (str ''system:'') = 7"
  by (simp add: str_def)

lemma space_isspace: "py_isspace 32"
  by (simp add: py_isspace_def)

lemma newline_isspace: "py_isspace 10"
  by (simp add: py_isspace_def)

lemma str_space: "str '' '' = [32]"
  by (simp add: str_def)

lemma words_ok_Nil: "words_ok []"
  by (simp add: words_ok_def)

lemma words_ok_Cons:
  "words_ok (w # ws) \<longleftrightarrow> w \<noteq> [] \<and> (\<forall>c\<in>set w. \<not> py_isspace c) \<and> words_ok ws"
  by (auto simp: words_ok_def)

lemma takeWhile_no_space:
  "x \<in> set (takeWhile (\<lambda>x. \<not> py_isspace x) r) \<Longrightarrow> \<not> py_isspace x"
  by (drule set_takeWhileD) blast

lemma split_words_ok: "words_ok (py_split s)"
proof (induction s rule: py_split.induct)
  case (1 s)
  show ?case
  proof (cases "dropWhile py_isspace s")
    case Nil
    have "py_split s = []" by (subst py_split.simps) (simp only: Nil list.case)
    then show ?thesis by (simp only: words_ok_Nil)
  next
    case (Cons c r)
    have "dropWhile py_isspace s \<noteq> []" unfolding Cons by simp
    then have "\<not> py_isspace (hd (dropWhile py_isspace s))" by (rule hd_dropWhile)
    then have c: "\<not> py_isspace c" unfolding Cons by simp
    have eq: "py_split s = (c # takeWhile (\<lambda>x. \<not> py_isspace x) r) #
        py_split (dropWhile (\<lambda>x. \<not> py_isspace x) r)"
      by (subst py_split.simps) (simp only: Cons list.case)
    have ih: "words_ok (py_split (dropWhile (\<lambda>x. \<not> py_isspace x) r))"
      by (rule 1 [OF Cons])
    have w: "\<forall>x\<in>set (c # takeWhile (\<lambda>x. \<not> py_isspace x) r). \<not> py_isspace x"
      using c takeWhile_no_space by auto
    show ?thesis
      unfolding eq words_ok_Cons using ih w by blast
  qed
qed

lemma split_word_then:
  assumes "w \<noteq> []" "\<forall>c\<in>set w. \<not> py_isspace c" "rest = [] \<or> py_isspace (hd rest)"
  shows "py_split (w @ rest) = w # py_split rest"
proof -
  obtain c r where w: "w = c # r" using assms(1) by (cases w) auto
  have c: "\<not> py_isspace c" and r: "\<forall>x\<in>set r. \<not> py_isspace x"
    using assms(2) w by auto
  have d: "dropWhile py_isspace (w @ rest) = c # (r @ rest)" using w c by simp
  have tk: "takeWhile (\<lambda>x. \<not> py_isspace x) (r @ rest) = r"
    using r assms(3) by (cases rest) (auto simp: takeWhile_append2)
  have dr: "dropWhile (\<lambda>x. \<not> py_isspace x) (r @ rest) = rest"
    using r assms(3) by (cases rest) (auto simp: dropWhile_append2)
  have "py_split (w @ rest) = (c # takeWhile (\<lambda>x. \<not> py_isspace x) (r @ rest)) #
      py_split (dropWhile (\<lambda>x. \<not> py_isspace x) (r @ rest))"
    by (subst py_split.simps) (simp only: d list.case)
  then show ?thesis by (simp only: tk dr w)
qed

lemma split_skip_space: "py_isspace c \<Longrightarrow> py_split (c # rest) = py_split rest"
proof -
  assume c: "py_isspace c"
  have "dropWhile py_isspace (c # rest) = dropWhile py_isspace rest" using c by simp
  then show ?thesis
    by (subst py_split.simps, subst (2) py_split.simps) (simp only:)
qed

lemma split_Nil: "py_split [] = []"
  by (subst py_split.simps) simp

lemma split_join: "words_ok ws \<Longrightarrow> py_split (py_join [32] ws) = ws"
proof (induction "[32::nat]" ws rule: py_join.induct)
  case 1
  then show ?case by (simp add: split_Nil)
next
  case (2 w)
  then have "py_split (w @ []) = w # py_split []"
    by (intro split_word_then) (auto simp: words_ok_def)
  then show ?case by (simp add: split_Nil)
next
  case (3 w v ws)
  from 3(2) have w: "w \<noteq> []" "\<forall>c\<in>set w. \<not> py_isspace c" and rest: "words_ok (v # ws)"
    by (auto simp: words_ok_def)
  have "py_split (w @ (32 # py_join [32] (v # ws))) =
      w # py_split (32 # py_join [32] (v # ws))"
    using w by (intro split_word_then) (auto simp: space_isspace)
  also have "py_split (32 # py_join [32] (v # ws)) = py_split (py_join [32] (v # ws))"
    by (rule split_skip_space) (rule space_isspace)
  also have "\<dots> = v # ws" using 3(1) rest by simp
  finally show ?case by simp
qed

lemma join_only_spaces:
  "words_ok ws \<Longrightarrow> c \<in> set (py_join [32] ws) \<Longrightarrow> py_isspace c \<Longrightarrow> c = 32"
  by (induction "[32::nat]" ws rule: py_join.induct) (auto simp: words_ok_Cons)

lemma join_head:
  "words_ok (w # ws) \<Longrightarrow>
   py_join [32] (w # ws) \<noteq> [] \<and> \<not> py_isspace (hd (py_join [32] (w # ws)))"
  by (cases ws; cases w) (auto simp: words_ok_Cons)

lemma no_adjacent_word:
  "\<forall>c\<in>set w. \<not> py_isspace c \<Longrightarrow> no_adjacent_space rest \<Longrightarrow>
   no_adjacent_space (w @ rest)"
proof (induction w)
  case Nil
  then show ?case by simp
next
  case (Cons a w)
  then have "no_adjacent_space (w @ rest)" by simp
  with Cons.prems(1) show ?case by (cases "w @ rest") auto
qed

lemma no_adjacent_join: "words_ok ws \<Longrightarrow> no_adjacent_space (py_join [32] ws)"
proof (induction "[32::nat]" ws rule: py_join.induct)
  case 1
  then show ?case by simp
next
  case (2 w)
  then have "no_adjacent_space (w @ [])"
    by (intro no_adjacent_word) (auto simp: words_ok_Cons)
  then show ?case by simp
next
  case (3 w v ws)
  let ?r = "py_join [32] (v # ws)"
  from 3(2) have w: "\<forall>c\<in>set w. \<not> py_isspace c" and rest: "words_ok (v # ws)"
    by (auto simp: words_ok_Cons)
  have r: "no_adjacent_space ?r" using 3(1) rest by simp
  have h: "?r \<noteq> [] \<and> \<not> py_isspace (hd ?r)" using rest by (rule join_head)
  have "no_adjacent_space (32 # ?r)" using r h by (cases ?r) auto
  then have "no_adjacent_space (w @ 32 # ?r)" using w by (intro no_adjacent_word)
  then show ?case by simp
qed

lemma no_adjacent_nth:
  "no_adjacent_space xs \<Longrightarrow> Suc i < length xs \<Longrightarrow>
   \<not> (py_isspace (xs ! i) \<and> py_isspace (xs ! Suc i))"
proof (induction xs arbitrary: i rule: no_adjacent_space.induct)
  case (3 a b r)
  then show ?case by (cases i) auto
qed simp_all

section \<open>The prompt loader and the one-line prompt\<close>

text \<open>
  C3. When the content starts with the marker \<open>system:\<close>, the prompt is the content
  without its first 7 characters, stripped: the content is the marker, then
  whitespace, then the prompt, then whitespace, and the prompt neither starts nor ends
  with whitespace. Any other content is returned as it is.
\<close>

theorem load_system_prompt_strips_marker:
  "(py_startswith content (str ''system:'') \<longrightarrow>
      load_system_prompt content = py_strip (drop 7 content) \<and>
      (\<exists>lead trail. content = str ''system:'' @ lead @ load_system_prompt content @ trail \<and>
         (\<forall>c\<in>set lead. py_isspace c) \<and> (\<forall>c\<in>set trail. py_isspace c)) \<and>
      (load_system_prompt content \<noteq> [] \<longrightarrow>
         \<not> py_isspace (hd (load_system_prompt content)) \<and>
         \<not> py_isspace (last (load_system_prompt content)))) \<and>
   (\<not> py_startswith content (str ''system:'') \<longrightarrow> load_system_prompt content = content)"
proof (cases "py_startswith content (str ''system:'')")
  case True
  then obtain rest where c: "content = str ''system:'' @ rest"
    unfolding startswith_iff by blast
  have d: "drop 7 content = rest" unfolding c using marker_length by simp
  have l: "load_system_prompt content = py_strip rest"
    using True d by (simp add: load_system_prompt_def)
  obtain lead trail where r: "rest = lead @ py_strip rest @ trail"
      "\<forall>c\<in>set lead. py_isspace c" "\<forall>c\<in>set trail. py_isspace c"
    using strip_decomp [of rest] by blast
  have "content = str ''system:'' @ lead @ load_system_prompt content @ trail"
    unfolding l using c r(1) by simp
  with r(2,3) have e:
    "\<exists>lead trail. content = str ''system:'' @ lead @ load_system_prompt content @ trail \<and>
         (\<forall>c\<in>set lead. py_isspace c) \<and> (\<forall>c\<in>set trail. py_isspace c)"
    by blast
  have n: "load_system_prompt content \<noteq> [] \<longrightarrow>
         \<not> py_isspace (hd (load_system_prompt content)) \<and>
         \<not> py_isspace (last (load_system_prompt content))"
    unfolding l using strip_ends [of rest] by blast
  from True l d e n show ?thesis by blast
next
  case False
  then show ?thesis by (simp add: load_system_prompt_def)
qed

theorem load_system_prompt_strips_marker_witness:
  "py_startswith (str ''system:  You are\<newline> an agent. '') (str ''system:'') \<and>
   load_system_prompt (str ''system:  You are\<newline> an agent. '') =
     str ''You are\<newline> an agent.'' \<and>
   \<not> py_startswith (str ''You are an agent. '') (str ''system:'') \<and>
   load_system_prompt (str ''You are an agent. '') = str ''You are an agent. ''"
proof -
  have a: "py_startswith (str ''system:  You are\<newline> an agent. '') (str ''system:'')"
    by (simp add: str_def py_startswith_def)
  have b: "\<not> py_startswith (str ''You are an agent. '') (str ''system:'')"
    by (simp add: str_def py_startswith_def)
  have c: "py_strip (drop 7 (str ''system:  You are\<newline> an agent. '')) =
      str ''You are\<newline> an agent.''"
    by (simp add: str_def py_strip_def py_isspace_def)
  from a load_system_prompt_strips_marker [of "str ''system:  You are\<newline> an agent. ''"]
  have 1: "load_system_prompt (str ''system:  You are\<newline> an agent. '') =
      str ''You are\<newline> an agent.''"
    unfolding c by blast
  from b load_system_prompt_strips_marker [of "str ''You are an agent. ''"]
  have 2: "load_system_prompt (str ''You are an agent. '') = str ''You are an agent. ''"
    by blast
  from a b 1 2 show ?thesis by blast
qed

text \<open>
  C4. The collapsed prompt has no newline, its only whitespace characters are single
  spaces, no two whitespace characters are next to each other, and collapsing it again
  changes nothing.
\<close>

theorem single_line_collapses:
  "10 \<notin> set (single_line s) \<and>
   (\<forall>c\<in>set (single_line s). py_isspace c \<longrightarrow> c = 32) \<and>
   (\<forall>i. Suc i < length (single_line s) \<longrightarrow>
        \<not> (py_isspace (single_line s ! i) \<and> py_isspace (single_line s ! Suc i))) \<and>
   single_line (single_line s) = single_line s"
proof -
  have ok: "words_ok (py_split s)" by (rule split_words_ok)
  have sp: "\<forall>c\<in>set (single_line s). py_isspace c \<longrightarrow> c = 32"
    unfolding single_line_def str_space using join_only_spaces [OF ok] by blast
  have nl: "10 \<notin> set (single_line s)"
  proof
    assume "10 \<in> set (single_line s)"
    with sp newline_isspace have "(10::nat) = 32" by blast
    then show False by simp
  qed
  have adj: "\<forall>i. Suc i < length (single_line s) \<longrightarrow>
        \<not> (py_isspace (single_line s ! i) \<and> py_isspace (single_line s ! Suc i))"
    unfolding single_line_def str_space
    using no_adjacent_nth [OF no_adjacent_join [OF ok]] by blast
  have idem: "single_line (single_line s) = single_line s"
    unfolding single_line_def str_space by (simp only: split_join [OF ok])
  from nl sp adj idem show ?thesis by blast
qed

theorem single_line_collapses_witness:
  "single_line (str ''  You are\<newline>\<newline>   an   agent. '') = str ''You are an agent.'' \<and>
   10 \<notin> set (str ''You are an agent.'') \<and>
   single_line (str ''You are an agent.'') = str ''You are an agent.''"
proof -
  have e: "single_line (str ''  You are\<newline>\<newline>   an   agent. '') = str ''You are an agent.''"
    by (simp add: single_line_def str_def py_split.simps py_isspace_def)
  show ?thesis
    using single_line_collapses [of "str ''  You are\<newline>\<newline>   an   agent. ''"]
    unfolding e by blast
qed

section \<open>The response loop\<close>

lemma print_blocks_append: "print_blocks (a @ b) = print_blocks a @ print_blocks b"
  by (induction a) simp_all

lemma response_loop_append: "response_loop (a @ b) = response_loop a @ response_loop b"
  by (induction a) simp_all

lemma echoed_append: "echoed st (a @ b) = echoed st a @ echoed st b"
  by (induction st a rule: echoed.induct) simp_all

lemma queries_append: "queries (a @ b) = queries a @ queries b"
  by (induction a rule: queries.induct) simp_all

lemma print_blocks_eq: "print_blocks bs = map (Echo Stdout) (block_texts bs)"
  by (induction bs rule: block_texts.induct) simp_all

lemma echoed_stdout_blocks: "echoed Stdout (print_blocks bs) = block_texts bs"
  by (induction bs rule: block_texts.induct) simp_all

lemma echoed_stderr_blocks: "echoed Stderr (print_blocks bs) = []"
  by (induction bs rule: block_texts.induct) simp_all

lemma queries_blocks: "queries (print_blocks bs) = []"
  by (induction bs rule: block_texts.induct) simp_all

lemma echoed_stdout_loop: "echoed Stdout (response_loop msgs) = text_segments msgs"
  by (induction msgs rule: text_segments.induct)
     (simp_all add: echoed_append echoed_stdout_blocks split: option.splits)

lemma echoed_stderr_loop: "echoed Stderr (response_loop msgs) = cost_lines msgs"
  by (induction msgs rule: cost_lines.induct)
     (simp_all add: echoed_append echoed_stderr_blocks)

lemma queries_loop: "queries (response_loop msgs) = []"
  by (induction msgs rule: cost_lines.induct)
     (simp_all add: queries_append queries_blocks)

lemma text_segments_result: "text_segments (msgs @ [ResultMessage r]) = text_segments msgs"
  by (induction msgs rule: text_segments.induct) simp_all

lemma format_eighth: "format_4f (Finite 1 (- 3)) = str ''0.1250''"
  by (simp add: round_4_def Let_def digits.simps str_def)

text \<open>The rendering of a finite cost.\<close>

lemma decimal_value_snoc: "decimal_value (xs @ [c]) = 10 * decimal_value xs + (c - 48)"
  by (simp add: decimal_value_def)

lemma decimal_value_append:
  "decimal_value (xs @ ys) = decimal_value xs * 10 ^ length ys + decimal_value ys"
proof (induction ys rule: rev_induct)
  case Nil
  then show ?case by (simp add: decimal_value_def)
next
  case (snoc y ys)
  have "decimal_value (xs @ ys @ [y]) = 10 * decimal_value (xs @ ys) + (y - 48)"
    using decimal_value_snoc [of "xs @ ys" y] by simp
  then show ?case
    by (simp add: snoc.IH decimal_value_snoc algebra_simps)
qed

lemma digits_nonempty: "digits n \<noteq> []"
  by (subst digits.simps) simp

lemma digits_are_digits: "list_all is_digit (digits n)"
proof (induction n rule: digits.induct)
  case (1 n)
  show ?case
  proof (cases "n < 10")
    case True
    then show ?thesis by (subst digits.simps) (simp add: is_digit_def)
  next
    case False
    have "n mod 10 < 10" by simp
    then have "is_digit (48 + n mod 10)" by (simp add: is_digit_def)
    with 1 [OF False] False show ?thesis
      by (subst digits.simps) simp
  qed
qed

lemma decimal_value_digits: "decimal_value (digits n) = n"
proof (induction n rule: digits.induct)
  case (1 n)
  show ?case
  proof (cases "n < 10")
    case True
    then show ?thesis by (subst digits.simps) (simp add: decimal_value_def)
  next
    case False
    with 1 [OF False] show ?thesis
      by (subst digits.simps) (simp add: decimal_value_snoc)
  qed
qed

lemma split_last_digit: "(n::nat) = 10 * (n div 10) + n mod 10"
  by simp

lemma four_digits:
  assumes "f < 10000"
  shows "list_all is_digit [48 + f div 1000, 48 + f div 100 mod 10, 48 + f div 10 mod 10, 48 + f mod (10::nat)] \<and>
         decimal_value [48 + f div 1000, 48 + f div 100 mod 10, 48 + f div 10 mod 10, 48 + f mod 10] = f"
proof -
  have a: "f div 1000 < 10" using assms by simp
  have m: "n mod 10 \<le> 9" for n :: nat
  proof -
    have "n mod 10 < 10" by simp
    then show ?thesis by linarith
  qed
  have b: "f div 100 mod 10 \<le> 9" "f div 10 mod 10 \<le> 9" "f mod 10 \<le> 9"
    by (rule m)+
  have d1: "f div 10 div 10 = f div 100" by (simp add: div_mult2_eq [symmetric])
  have d2: "f div 100 div 10 = f div 1000" by (simp add: div_mult2_eq [symmetric])
  have e1: "f = 10 * (f div 10) + f mod 10" by (rule split_last_digit)
  have e2: "f div 10 = 10 * (f div 100) + f div 10 mod 10"
    using split_last_digit [of "f div 10"] unfolding d1 .
  have e3: "f div 100 = 10 * (f div 1000) + f div 100 mod 10"
    using split_last_digit [of "f div 100"] unfolding d2 .
  have "decimal_value [48 + f div 1000, 48 + f div 100 mod 10, 48 + f div 10 mod 10, 48 + f mod 10]
      = 10 * (10 * (10 * (f div 1000) + f div 100 mod 10) + f div 10 mod 10) + f mod 10"
    by (simp add: decimal_value_def)
  also have "\<dots> = 10 * (10 * (f div 100) + f div 10 mod 10) + f mod 10"
    using e3 by simp
  also have "\<dots> = 10 * (f div 10) + f mod 10"
    using e2 by simp
  also have "\<dots> = f" using e1 by simp
  finally have v: "decimal_value [48 + f div 1000, 48 + f div 100 mod 10, 48 + f div 10 mod 10, 48 + f mod 10] = f" .
  have "list_all is_digit [48 + f div 1000, 48 + f div 100 mod 10, 48 + f div 10 mod 10, 48 + f mod 10]"
    using a b by (simp add: is_digit_def)
  with v show ?thesis by blast
qed

lemma round_4_nearest: "nearest_4 a e (round_4 a e)"
proof (cases "0 \<le> e")
  case True
  then show ?thesis by (simp add: nearest_4_def round_4_def)
next
  case False
  define d :: nat where "d = 2 ^ nat (- e)"
  define A where "A = a * 10000"
  define q where "q = A div d"
  define r where "r = A mod d"
  have d: "0 < d" by (simp add: d_def)
  have A: "A = q * d + r" by (simp add: q_def r_def)
  have r: "r < d" using d by (simp add: r_def)
  have n: "round_4 a e = (if 2 * r < d then q else if d < 2 * r then q + 1
                          else if even q then q else q + 1)"
    using False by (simp add: round_4_def Let_def d_def A_def q_def r_def)
  have g: "nearest_4 a e n \<longleftrightarrow> 2 * A \<le> (2 * n + 1) * d \<and> 2 * n * d \<le> 2 * A + d" for n
    using False by (simp add: nearest_4_def d_def A_def)
  consider (lo) "2 * r < d" | (hi) "d < 2 * r" | (tie) "2 * r = d" by linarith
  then have "2 * A \<le> (2 * round_4 a e + 1) * d \<and> 2 * round_4 a e * d \<le> 2 * A + d"
  proof cases
    case lo
    then have "round_4 a e = q" by (simp add: n)
    with lo show ?thesis unfolding A by (simp add: algebra_simps)
  next
    case hi
    then have "round_4 a e = q + 1" by (simp add: n)
    with hi r show ?thesis unfolding A by (simp add: algebra_simps)
  next
    case tie
    then have "round_4 a e = q \<or> round_4 a e = q + 1" by (simp add: n)
    with tie show ?thesis unfolding A by (auto simp: algebra_simps)
  qed
  then show ?thesis unfolding g .
qed

lemma format_4f_finite:
  "\<exists>ip fp. format_4f (Finite m e) =
       (if m < 0 then str ''-'' else []) @ ip @ str ''.'' @ fp \<and>
     ip \<noteq> [] \<and> length fp = 4 \<and> list_all is_digit (ip @ fp) \<and>
     nearest_4 (nat \<bar>m\<bar>) e (decimal_value (ip @ fp))"
proof -
  define n where "n = round_4 (nat \<bar>m\<bar>) e"
  define f where "f = n mod 10000"
  define ip where "ip = digits (n div 10000)"
  define fp where "fp = [48 + f div 1000, 48 + f div 100 mod 10, 48 + f div 10 mod 10, 48 + f mod 10]"
  have f: "f < 10000" by (simp add: f_def)
  have 1: "format_4f (Finite m e) = (if m < 0 then str ''-'' else []) @ ip @ str ''.'' @ fp"
    by (simp add: Let_def n_def f_def ip_def fp_def)
  have 2: "ip \<noteq> []" unfolding ip_def by (rule digits_nonempty)
  have 3: "length fp = 4" by (simp add: fp_def)
  have 4: "list_all is_digit fp" and 5: "decimal_value fp = f"
    using four_digits [OF f] unfolding fp_def by blast+
  have 6: "list_all is_digit (ip @ fp)"
    using 4 digits_are_digits [of "n div 10000"] by (simp add: ip_def)
  have "decimal_value (ip @ fp) = n div 10000 * 10000 + n mod 10000"
    unfolding decimal_value_append 3 5 ip_def decimal_value_digits f_def by simp
  then have 7: "decimal_value (ip @ fp) = n" by simp
  have 8: "nearest_4 (nat \<bar>m\<bar>) e (decimal_value (ip @ fp))"
    unfolding 7 n_def by (rule round_4_nearest)
  from 1 2 3 6 8 show ?thesis by blast
qed


text \<open>
  C1. What the loop echoes to standard output is the texts of the text blocks of the
  assistant messages, in the order of the stream; a text block is echoed at its place
  between the blocks and messages around it; the other kinds of block and the other
  kinds of message give no output.
\<close>

theorem response_loop_prints_text_blocks:
  "echoed Stdout (response_loop msgs) = text_segments msgs \<and>
   handle_message (AssistantMessage bs) = map (Echo Stdout) (block_texts bs) \<and>
   response_loop (before @ AssistantMessage (bs1 @ TextBlock t # bs2) # after) =
     response_loop before @ print_blocks bs1 @ Echo Stdout t # print_blocks bs2 @
     response_loop after \<and>
   print_block (ThinkingBlock x) = [] \<and> print_block (ToolUseBlock x) = [] \<and>
   print_block (ToolResultBlock x) = [] \<and>
   handle_message UserMessage = [] \<and> handle_message SystemMessage = [] \<and>
   handle_message StreamEvent = []"
proof -
  have 1: "echoed Stdout (response_loop msgs) = text_segments msgs"
    by (rule echoed_stdout_loop)
  have 2: "handle_message (AssistantMessage bs) = map (Echo Stdout) (block_texts bs)"
    by (simp add: print_blocks_eq)
  have 3: "response_loop (before @ AssistantMessage (bs1 @ TextBlock t # bs2) # after) =
     response_loop before @ print_blocks bs1 @ Echo Stdout t # print_blocks bs2 @
     response_loop after"
    by (simp add: response_loop_append print_blocks_append)
  from 1 2 3 show ?thesis by simp
qed

text \<open>
  C2, as stated, fails: a stream that ends with a result message without a cost gives
  no cost line at all.
\<close>

theorem cost_summary_counterexample:
  "response_loop [AssistantMessage [TextBlock (str ''done'')], ResultMessage None] =
     [Echo Stdout (str ''done'')] \<and>
   echoed Stderr
     (response_loop [AssistantMessage [TextBlock (str ''done'')], ResultMessage None]) = []"
  by simp

text \<open>
  C2, amended. When the stream ends with a result message whose total cost is set and
  not zero, the cost line is the last thing the loop echoes and every text segment is
  echoed before it; a result message whose cost is zero or not set adds nothing to the
  output. The line is \<open>[Cost: $\<close>, the cost, \<open>]\<close> after a newline. A finite cost is
  rendered as an optional minus sign, the digits of the whole part, a point and four
  more digits, which together denote a nearest number of ten-thousandths; a NaN is
  rendered \<open>nan\<close>, an infinity \<open>inf\<close> or \<open>-inf\<close>.
\<close>

theorem cost_summary_when_cost_is_set:
  "(float_bool c \<longrightarrow>
      response_loop (msgs @ [ResultMessage (Some c)]) =
        response_loop msgs @ [Echo Stderr (cost_line c)] \<and>
      last (response_loop (msgs @ [ResultMessage (Some c)])) = Echo Stderr (cost_line c) \<and>
      echoed Stdout (butlast (response_loop (msgs @ [ResultMessage (Some c)]))) =
        text_segments (msgs @ [ResultMessage (Some c)]) \<and>
      cost_line c = str ''\<newline>[Cost: $'' @ format_4f c @ str '']'') \<and>
   (\<not> float_bool c \<longrightarrow>
      response_loop (msgs @ [ResultMessage (Some c)]) = response_loop msgs) \<and>
   response_loop (msgs @ [ResultMessage None]) = response_loop msgs \<and>
   \<not> float_bool (Finite 0 e) \<and>
   (m \<noteq> 0 \<longrightarrow>
      float_bool (Finite m e) \<and>
      (\<exists>ip fp. format_4f (Finite m e) =
           (if m < 0 then str ''-'' else []) @ ip @ str ''.'' @ fp \<and>
         ip \<noteq> [] \<and> length fp = 4 \<and> list_all is_digit (ip @ fp) \<and>
         nearest_4 (nat \<bar>m\<bar>) e (decimal_value (ip @ fp)))) \<and>
   float_bool NaN \<and> format_4f NaN = str ''nan'' \<and>
   float_bool (Infinite neg) \<and>
   format_4f (Infinite neg) = (if neg then str ''-inf'' else str ''inf'')"
proof -
  have 1: "response_loop (msgs @ [ResultMessage (Some c)]) =
     response_loop msgs @ [Echo Stderr (cost_line c)]" if "float_bool c"
    using that by (simp add: response_loop_append)
  have 2: "text_segments (msgs @ [ResultMessage (Some c)]) = text_segments msgs"
    by (rule text_segments_result)
  have 3: "cost_line c = str ''\<newline>[Cost: $'' @ format_4f c @ str '']''"
    by (simp add: cost_line_def)
  have 4: "response_loop (msgs @ [ResultMessage (Some c)]) = response_loop msgs"
    if "\<not> float_bool c"
    using that by (simp add: response_loop_append)
  have 5: "response_loop (msgs @ [ResultMessage None]) = response_loop msgs"
    by (simp add: response_loop_append)
  have 6: "last (response_loop (msgs @ [ResultMessage (Some c)])) = Echo Stderr (cost_line c) \<and>
      echoed Stdout (butlast (response_loop (msgs @ [ResultMessage (Some c)]))) =
        text_segments (msgs @ [ResultMessage (Some c)])" if "float_bool c"
    unfolding 1 [OF that] 2 by (simp add: echoed_stdout_loop)
  have 7: "float_bool (Finite m e)" if "m \<noteq> 0"
    using that by simp
  have 8: "float_bool NaN \<and> format_4f NaN = str ''nan'' \<and> float_bool (Infinite neg) \<and>
      format_4f (Infinite neg) = (if neg then str ''-inf'' else str ''inf'')"
    by simp
  have 9: "\<not> float_bool (Finite 0 e)" by simp
  from 1 3 4 5 6 7 8 9 format_4f_finite [of m e] show ?thesis by blast
qed


theorem cost_summary_when_cost_is_set_witness:
  "float_bool (Finite 1 (- 3)) \<and>
   response_loop ([AssistantMessage [TextBlock (str ''done'')]] @
                  [ResultMessage (Some (Finite 1 (- 3)))]) =
     [Echo Stdout (str ''done''), Echo Stderr (str ''\<newline>[Cost: $0.1250]'')] \<and>
   \<not> float_bool (Finite 0 0) \<and>
   response_loop ([AssistantMessage [TextBlock (str ''done'')]] @
                  [ResultMessage (Some (Finite 0 0))]) =
     [Echo Stdout (str ''done'')] \<and>
   (1::int) \<noteq> 0 \<and>
   format_4f (Finite 1 (- 3)) = str ''0'' @ str ''.'' @ str ''1250'' \<and>
   nearest_4 (nat \<bar>1\<bar>) (- 3) (decimal_value (str ''0'' @ str ''1250''))"
proof -
  have f: "float_bool (Finite 1 (- 3))" by simp
  have z: "\<not> float_bool (Finite 0 0)" by simp
  have l: "cost_line (Finite 1 (- 3)) = str ''\<newline>[Cost: $0.1250]''"
    unfolding cost_line_def format_eighth by (simp add: str_def)
  have r: "format_4f (Finite 1 (- 3)) = str ''0'' @ str ''.'' @ str ''1250''"
    unfolding format_eighth by (simp add: str_def)
  have n: "nearest_4 (nat \<bar>1\<bar>) (- 3) (decimal_value (str ''0'' @ str ''1250''))"
    by (simp add: nearest_4_def decimal_value_def str_def)
  have a: "response_loop ([AssistantMessage [TextBlock (str ''done'')]] @
                  [ResultMessage (Some (Finite 1 (- 3)))]) =
     [Echo Stdout (str ''done''), Echo Stderr (str ''\<newline>[Cost: $0.1250]'')]"
    using cost_summary_when_cost_is_set
      [where c = "Finite 1 (- 3)" and msgs = "[AssistantMessage [TextBlock (str ''done'')]]"
         and m = 1 and e = "- 3"] f
    unfolding l by simp
  have b: "response_loop ([AssistantMessage [TextBlock (str ''done'')]] @
                  [ResultMessage (Some (Finite 0 0))]) =
     [Echo Stdout (str ''done'')]"
    using cost_summary_when_cost_is_set
      [where c = "Finite 0 0" and msgs = "[AssistantMessage [TextBlock (str ''done'')]]"
         and m = 1 and e = "- 3"] z
    by simp
  from f z a b r n show ?thesis by simp
qed

section \<open>The agent runner\<close>

text \<open>
  C5. The options the client is opened with permit the two tool identifiers
  \<open>mcp__techdebt__extract_style_diagnostics\<close> and
  \<open>mcp__techdebt__extract_analyzers_diagnostics\<close>, and nothing else, whatever the
  arguments of \<open>run_agent\<close> are.
\<close>

theorem run_agent_allowed_tools:
  "hd (run_agent template query dir msgs) = ClientOpened (build_options template dir) \<and>
   allowed_tools (build_options template dir) =
     [str ''mcp__techdebt__extract_style_diagnostics'',
      str ''mcp__techdebt__extract_analyzers_diagnostics''] \<and>
   length (allowed_tools (build_options template dir)) = 2 \<and>
   distinct (allowed_tools (build_options template dir)) \<and>
   set (allowed_tools (build_options template dir)) =
     {str ''mcp__techdebt__extract_style_diagnostics'',
      str ''mcp__techdebt__extract_analyzers_diagnostics''}"
proof -
  have d: "str ''mcp__techdebt__extract_style_diagnostics'' \<noteq>
           str ''mcp__techdebt__extract_analyzers_diagnostics''"
    by (simp add: str_def)
  show ?thesis using d by (simp add: run_agent_def build_options_def)
qed

text \<open>
  C8. One run of \<open>run_agent\<close> submits one query, the one it was given, right after
  the client is opened; the response loop submits none.
\<close>

theorem run_agent_single_query:
  "queries (run_agent template query dir msgs) = [query] \<and>
   length (queries (run_agent template query dir msgs)) = 1 \<and>
   (\<exists>opts. take 2 (run_agent template query dir msgs) =
      [ClientOpened opts, QuerySubmitted query]) \<and>
   queries (response_loop msgs) = []"
  by (simp add: run_agent_def queries_append queries_loop)

section \<open>Logging setup: facts\<close>

lemma path_join_tda:
  "\<exists>sep. path_join d (str ''tda.log'') = d @ sep @ str ''tda.log'' \<and> (sep = [] \<or> sep = str ''/'')"
proof -
  have "\<not> py_startswith (str ''tda.log'') (str ''/'')"
    by (simp add: py_startswith_def str_def)
  then show ?thesis by (auto simp: path_join_def)
qed

lemma setup_logging_result:
  assumes "setup_logging upper w = Inr (p, w')"
  shows "p = path_join (tempdir w) (str ''tda.log'') \<and>
         (\<exists>h1 h2. root_handlers w' = [h1, h2] \<and>
            target h1 = RotatingFile p (5 * 1024 * 1024) 3 \<and> level h1 = 10 \<and>
            target h2 = StderrStream \<and> hid h1 \<noteq> hid h2) \<and>
         tempdir w' = tempdir w \<and> environ w' = environ w \<and> root_level w' = 10"
  using assms
  by (auto simp: setup_logging_def Let_def addHandler_def split: sum.splits)

text \<open>
  C6. Whatever handlers the root logger had, and however often \<open>setup_logging\<close> has
  been called before, when it returns the root logger has exactly two handlers: first
  a rotating file handler on \<open>tda.log\<close> in the temp directory (5 MB, 3 backups), then a
  stream handler on standard error, two different objects. The path returned is that
  of the log file.
\<close>

theorem setup_logging_two_handlers:
  "setup_logging_again upper n w = Inr (p, w') \<Longrightarrow>
     length (root_handlers w') = 2 \<and>
     (\<exists>h1 h2. root_handlers w' = [h1, h2] \<and>
        target h1 = RotatingFile p (5 * 1024 * 1024) 3 \<and>
        target h2 = StderrStream \<and> hid h1 \<noteq> hid h2) \<and>
     p = path_join (tempdir w) (str ''tda.log'') \<and>
     (\<exists>sep. p = tempdir w @ sep @ str ''tda.log'' \<and> (sep = [] \<or> sep = str ''/''))"
proof (induction n arbitrary: w)
  case 0
  then have "setup_logging upper w = Inr (p, w')" by simp
  from setup_logging_result [OF this] path_join_tda [of "tempdir w"]
  show ?case by auto
next
  case (Suc n)
  from Suc.prems obtain q w1 where 1: "setup_logging upper w = Inr (q, w1)"
    and 2: "setup_logging_again upper n w1 = Inr (p, w')"
    by (auto split: sum.splits)
  from setup_logging_result [OF 1] have t: "tempdir w1 = tempdir w" by blast
  from Suc.IH [OF 2] show ?case unfolding t by blast
qed

lemma upper_debug: "ascii_upper (str ''debug'') = str ''DEBUG''"
  by (simp add: ascii_upper_def str_def)

lemma getattr_debug: "logging_getattr (str ''DEBUG'') = Some (PyInt 10)"
  by (simp add: logging_getattr_def str_def)

lemma join_tmp: "path_join (str ''/tmp'') (str ''tda.log'') = str ''/tmp/tda.log''"
  by (simp add: path_join_def py_startswith_def py_endswith_def str_def)

theorem setup_logging_two_handlers_witness:
  "setup_logging_again ascii_upper 2
     \<lparr> environ = [str ''TDA_LOG_LEVEL'' \<mapsto> str ''debug''], tempdir = str ''/tmp'',
       root_handlers = [\<lparr> hid = 0, target = StderrStream, formatter = None, level = 0 \<rparr>],
       root_level = 30, next_oid = 1 \<rparr> =
   Inr (str ''/tmp/tda.log'',
     \<lparr> environ = [str ''TDA_LOG_LEVEL'' \<mapsto> str ''debug''], tempdir = str ''/tmp'',
       root_handlers =
         [\<lparr> hid = 5, target = RotatingFile (str ''/tmp/tda.log'') (5 * 1024 * 1024) 3,
            formatter = Some (str ''%(asctime)s - %(name)s - %(levelname)s - %(message)s''),
            level = 10 \<rparr>,
          \<lparr> hid = 6, target = StderrStream,
            formatter = Some (str ''%(levelname)s - %(name)s - %(message)s''),
            level = 10 \<rparr>],
       root_level = 10, next_oid = 7 \<rparr>) \<and>
   length [\<lparr> hid = 5, target = RotatingFile (str ''/tmp/tda.log'') (5 * 1024 * 1024) 3,
            formatter = Some (str ''%(asctime)s - %(name)s - %(levelname)s - %(message)s''),
            level = 10 \<rparr>,
          \<lparr> hid = (6::nat), target = StderrStream,
            formatter = Some (str ''%(levelname)s - %(name)s - %(message)s''),
            level = 10 \<rparr>] = 2"
proof -
  let ?w = "\<lparr> environ = [str ''TDA_LOG_LEVEL'' \<mapsto> str ''debug''], tempdir = str ''/tmp'',
       root_handlers = [\<lparr> hid = 0, target = StderrStream, formatter = None, level = 0 \<rparr>],
       root_level = 30, next_oid = 1 \<rparr>"
  let ?w' = "\<lparr> environ = [str ''TDA_LOG_LEVEL'' \<mapsto> str ''debug''], tempdir = str ''/tmp'',
       root_handlers =
         [\<lparr> hid = 5, target = RotatingFile (str ''/tmp/tda.log'') (5 * 1024 * 1024) 3,
            formatter = Some (str ''%(asctime)s - %(name)s - %(levelname)s - %(message)s''),
            level = 10 \<rparr>,
          \<lparr> hid = 6, target = StderrStream,
            formatter = Some (str ''%(levelname)s - %(name)s - %(message)s''),
            level = 10 \<rparr>],
       root_level = 10, next_oid = 7 \<rparr>"
  have e: "setup_logging_again ascii_upper 2 ?w = Inr (str ''/tmp/tda.log'', ?w')"
    by (simp add: numeral_2_eq_2 setup_logging_def Let_def addHandler_def
          upper_debug getattr_debug join_tmp)
  from setup_logging_two_handlers [OF e] e show ?thesis by simp
qed

text \<open>
  C9 does not hold of the code. With \<open>TDA_LOG_LEVEL=basic_format\<close> the upper-cased
  value is no level name, but it is the name of the module's default format string;
  \<open>getattr\<close> finds that string, \<open>setLevel\<close> refuses it, and \<open>setup_logging\<close> ends
  with a \<open>ValueError\<close> instead of falling back to INFO.
\<close>

theorem setup_logging_basic_format_raises:
  "setup_logging ascii_upper
     \<lparr> environ = [str ''TDA_LOG_LEVEL'' \<mapsto> str ''basic_format''], tempdir = str ''/tmp'',
       root_handlers = [], root_level = 30, next_oid = 0 \<rparr> = Inl ValueError"
proof -
  have u: "ascii_upper (str ''basic_format'') = str ''BASIC_FORMAT''"
    by (simp add: ascii_upper_def str_def)
  have g: "logging_getattr (str ''BASIC_FORMAT'') =
      Some (PyStr (str ''%(levelname)s:%(name)s:%(message)s''))"
    by (simp add: logging_getattr_def str_def)
  have n: "name_to_level (str ''%(levelname)s:%(name)s:%(message)s'') = None"
    by (simp add: name_to_level_def str_def)
  show ?thesis
    by (simp add: setup_logging_def Let_def u g n)
qed

text \<open>
  What does hold: a value whose upper-cased form is no attribute of the module falls
  back to INFO, and the file handler is at DEBUG whenever the setup returns.
\<close>

lemma setup_logging_fallback:
  "logging_getattr (upper (case environ w (str ''TDA_LOG_LEVEL'') of
                             None \<Rightarrow> str ''INFO'' | Some v \<Rightarrow> v)) = None \<Longrightarrow>
   \<exists>p w' h1 h2. setup_logging upper w = Inr (p, w') \<and> root_handlers w' = [h1, h2] \<and>
      level h1 = 10 \<and> level h2 = 20"
  by (simp add: setup_logging_def Let_def addHandler_def)

lemma setup_logging_file_level:
  "setup_logging upper w = Inr (p, w') \<Longrightarrow> level (hd (root_handlers w')) = 10"
  using setup_logging_result [of upper w p w'] by auto

section \<open>The entry point: facts\<close>

lemma cost_line_not_logs: "cost_line c \<noteq> str ''Logs: '' @ p"
  by (simp add: cost_line_def str_def)

lemma print_blocks_events: "e \<in> set (print_blocks bs) \<Longrightarrow> \<exists>t. e = Echo Stdout t"
  by (induction bs rule: block_texts.induct) auto

lemma response_loop_events:
  "e \<in> set (response_loop msgs) \<Longrightarrow>
   (\<exists>t. e = Echo Stdout t) \<or> (\<exists>c. e = Echo Stderr (cost_line c))"
proof (induction msgs)
  case Nil
  then show ?case by simp
next
  case (Cons m msgs)
  then show ?case
    by (cases m) (auto dest: print_blocks_events split: option.splits if_splits)
qed

lemma logs_line_not_in_run:
  "Echo Stderr (str ''Logs: '' @ p) \<notin> set (run_agent template query dir msgs)"
proof
  assume "Echo Stderr (str ''Logs: '' @ p) \<in> set (run_agent template query dir msgs)"
  then have "Echo Stderr (str ''Logs: '' @ p) \<in> set (response_loop msgs)"
    by (simp add: run_agent_def)
  from response_loop_events [OF this] obtain c where "str ''Logs: '' @ p = cost_line c"
    by auto
  with cost_line_not_logs [of c p] show False by simp
qed

lemma cost_line_eighth: "cost_line (Finite 1 (- 3)) = str ''\<newline>[Cost: $0.1250]''"
  unfolding cost_line_def format_eighth by (simp add: str_def)

lemma setup_logging_default:
  "setup_logging ascii_upper
     \<lparr> environ = Map.empty, tempdir = str ''/tmp'', root_handlers = [],
       root_level = 30, next_oid = 0 \<rparr> =
   Inr (str ''/tmp/tda.log'',
     \<lparr> environ = Map.empty, tempdir = str ''/tmp'',
       root_handlers =
         [\<lparr> hid = 0, target = RotatingFile (str ''/tmp/tda.log'') (5 * 1024 * 1024) 3,
            formatter = Some (str ''%(asctime)s - %(name)s - %(levelname)s - %(message)s''),
            level = 10 \<rparr>,
          \<lparr> hid = 1, target = StderrStream,
            formatter = Some (str ''%(levelname)s - %(name)s - %(message)s''),
            level = 20 \<rparr>],
       root_level = 10, next_oid = 2 \<rparr>)"
proof -
  have u: "ascii_upper (str ''INFO'') = str ''INFO''"
    by (simp add: ascii_upper_def str_def)
  have g: "logging_getattr (str ''INFO'') = Some (PyInt 20)"
    by (simp add: logging_getattr_def str_def)
  show ?thesis
    by (simp add: setup_logging_def Let_def addHandler_def u g join_tmp)
qed

text \<open>
  C7. When the logging setup returns, the trace of \<open>main\<close> is: logging configured,
  then the whole agent run, then the line with the log path on standard error. That
  line is the last event and occurs nowhere before. When the setup raises, \<open>main\<close>
  ends with that error and has done nothing else.
\<close>

theorem main_prints_log_path_last:
  "(\<forall>p w1. setup_logging upper w = Inr (p, w1) \<longrightarrow>
      fst (main upper template msgs query dir w) =
        LoggingConfigured p # run_agent template query dir msgs @
          [Echo Stderr (str ''Logs: '' @ p)] \<and>
      hd (fst (main upper template msgs query dir w)) = LoggingConfigured p \<and>
      last (fst (main upper template msgs query dir w)) = Echo Stderr (str ''Logs: '' @ p) \<and>
      butlast (fst (main upper template msgs query dir w)) =
        LoggingConfigured p # run_agent template query dir msgs \<and>
      Echo Stderr (str ''Logs: '' @ p) \<notin>
        set (butlast (fst (main upper template msgs query dir w)))) \<and>
   (\<forall>e. setup_logging upper w = Inl e \<longrightarrow>
      main upper template msgs query dir w = ([], Inl e))"
proof -
  have a: "fst (main upper template msgs query dir w) =
        LoggingConfigured p # run_agent template query dir msgs @
          [Echo Stderr (str ''Logs: '' @ p)]"
    if "setup_logging upper w = Inr (p, w1)" for p w1
    using that by (simp add: main_def Let_def)
  have b: "main upper template msgs query dir w = ([], Inl e)"
    if "setup_logging upper w = Inl e" for e
    using that by (simp add: main_def)
  have c: "butlast (LoggingConfigured p # run_agent template query dir msgs @
          [Echo Stderr (str ''Logs: '' @ p)]) =
        LoggingConfigured p # run_agent template query dir msgs" for p
    by (simp add: butlast_append)
  show ?thesis
    using a b c logs_line_not_in_run [of _ template query dir msgs]
    by (auto simp del: butlast.simps)
qed


theorem main_prints_log_path_last_witness:
  "fst (main ascii_upper (str ''system: be brief'')
         [AssistantMessage [TextBlock (str ''hi'')], ResultMessage (Some (Finite 1 (- 3)))]
         (str ''count'') (str ''.'')
         \<lparr> environ = Map.empty, tempdir = str ''/tmp'', root_handlers = [],
           root_level = 30, next_oid = 0 \<rparr>) =
     [LoggingConfigured (str ''/tmp/tda.log''),
      ClientOpened (build_options (str ''system: be brief'') (str ''.'')),
      QuerySubmitted (str ''count''),
      Echo Stdout (str ''hi''),
      Echo Stderr (str ''\<newline>[Cost: $0.1250]''),
      ClientClosed,
      Echo Stderr (str ''Logs: /tmp/tda.log'')]"
proof -
  have l: "str ''Logs: '' @ str ''/tmp/tda.log'' = str ''Logs: /tmp/tda.log''"
    by (simp add: str_def)
  show ?thesis
    using main_prints_log_path_last [of ascii_upper
        "\<lparr> environ = Map.empty, tempdir = str ''/tmp'', root_handlers = [],
           root_level = 30, next_oid = 0 \<rparr>"
        "str ''system: be brief''"
        "[AssistantMessage [TextBlock (str ''hi'')], ResultMessage (Some (Finite 1 (- 3)))]"
        "str ''count''" "str ''.''"]
    by (simp add: setup_logging_default run_agent_def cost_line_eighth l)
qed

text \<open>
  C10. Standard output receives the text segments of the agent and nothing else;
  the cost lines and the log-path line go to standard error.
\<close>

theorem output_streams:
  "echoed Stdout (run_agent template query dir msgs) = text_segments msgs \<and>
   echoed Stderr (run_agent template query dir msgs) = cost_lines msgs \<and>
   (\<forall>p w1. setup_logging upper w = Inr (p, w1) \<longrightarrow>
      echoed Stdout (fst (main upper template msgs query dir w)) = text_segments msgs \<and>
      echoed Stderr (fst (main upper template msgs query dir w)) =
        cost_lines msgs @ [str ''Logs: '' @ p]) \<and>
   (\<forall>e. setup_logging upper w = Inl e \<longrightarrow>
      echoed Stdout (fst (main upper template msgs query dir w)) = [])"
proof -
  have 1: "echoed Stdout (run_agent template query dir msgs) = text_segments msgs"
    by (simp add: run_agent_def echoed_append echoed_stdout_loop)
  have 2: "echoed Stderr (run_agent template query dir msgs) = cost_lines msgs"
    by (simp add: run_agent_def echoed_append echoed_stderr_loop)
  have 3: "echoed Stdout (fst (main upper template msgs query dir w)) = text_segments msgs \<and>
      echoed Stderr (fst (main upper template msgs query dir w)) =
        cost_lines msgs @ [str ''Logs: '' @ p]"
    if "setup_logging upper w = Inr (p, w1)" for p w1
    using that 1 2 by (simp add: main_def Let_def echoed_append)
  have 4: "echoed Stdout (fst (main upper template msgs query dir w)) = []"
    if "setup_logging upper w = Inl e" for e
    using that by (simp add: main_def)
  from 1 2 3 4 show ?thesis by blast
qed

theorem output_streams_witness:
  "echoed Stdout (fst (main ascii_upper (str ''system: be brief'')
         [AssistantMessage [TextBlock (str ''hi'')], ResultMessage (Some (Finite 1 (- 3)))]
         (str ''count'') (str ''.'')
         \<lparr> environ = Map.empty, tempdir = str ''/tmp'', root_handlers = [],
           root_level = 30, next_oid = 0 \<rparr>)) = [str ''hi''] \<and>
   echoed Stderr (fst (main ascii_upper (str ''system: be brief'')
         [AssistantMessage [TextBlock (str ''hi'')], ResultMessage (Some (Finite 1 (- 3)))]
         (str ''count'') (str ''.'')
         \<lparr> environ = Map.empty, tempdir = str ''/tmp'', root_handlers = [],
           root_level = 30, next_oid = 0 \<rparr>)) =
     [str ''\<newline>[Cost: $0.1250]'', str ''Logs: /tmp/tda.log'']"
proof -
  have l: "str ''Logs: '' @ str ''/tmp/tda.log'' = str ''Logs: /tmp/tda.log''"
    by (simp add: str_def)
  show ?thesis
    using output_streams [of "str ''system: be brief''" "str ''count''" "str ''.''"
        "[AssistantMessage [TextBlock (str ''hi'')], ResultMessage (Some (Finite 1 (- 3)))]"
        ascii_upper
        "\<lparr> environ = Map.empty, tempdir = str ''/tmp'', root_handlers = [],
           root_level = 30, next_oid = 0 \<rparr>"]
    by (simp add: setup_logging_default cost_line_eighth l)
qed

end
